theory Spec2Isabelle
  imports Main "HOL-Library.AList"
begin

section \<open>Python values shared by the models\<close>

text \<open>
  The exceptions the modelled code can raise. A function that can raise returns
  \<open>error + 'a\<close>, with \<open>Inl\<close> for the exception.
\<close>

datatype error =
    KeyError string
  | NameError string
  | ValueError
  | IndexError
  | AssertionError string
  | RuntimeError string
  | AttributeError
  | TypeError
  | SystemExit int
  | NotADirectoryError string

section \<open>Bad-channel labels (gui\_functions.py, BadChannelsSelect)\<close>

text \<open>
  \<open>str(n)\<close> for a non-negative integer, and the format \<open>f'{x:03}'\<close>: the decimal
  digits, padded with zeros on the left to three characters (longer numbers are not cut).
\<close>

definition digit_char :: "nat \<Rightarrow> char" where
  "digit_char d = ''0123456789'' ! d"

fun str_nat :: "nat \<Rightarrow> string" where
  "str_nat n = (if n < 10 then [digit_char n] else str_nat (n div 10) @ [digit_char (n mod 10)])"

declare str_nat.simps [simp del]

definition format_03 :: "nat \<Rightarrow> string" where
  "format_03 x = (let s = str_nat x in replicate (3 - length s) CHR ''0'' @ s)"

text \<open>\<open>ch_name = f'MEG {x:03}'\<close>\<close>

definition ch_name :: "nat \<Rightarrow> string" where
  "ch_name x = ''MEG '' @ format_03 x"

text \<open>The slice \<open>ch[-3:]\<close>: the last three characters, or the whole string when it is shorter.\<close>

definition last3 :: "string \<Rightarrow> string" where
  "last3 s = drop (length s - 3) s"

text \<open>
  \<open>int(s)\<close> on a string: a non-empty string of decimal digits is its value. Python also
  accepts blanks around the number, a sign and single underscores between digits; the
  labels of the channel check boxes hold none of these, and the model reports every other
  string as \<open>ValueError\<close>.
\<close>

definition digit_val :: "char \<Rightarrow> nat option" where
  "digit_val c =
     (let n = (of_char c :: nat) in if 48 \<le> n \<and> n \<le> 57 then Some (n - 48) else None)"

definition py_int :: "string \<Rightarrow> error + int" where
  "py_int s =
     (if s = [] \<or> (\<exists>c \<in> set s. digit_val c = None) then Inl ValueError
      else Inr (foldl (\<lambda>acc c. 10 * acc + int (the (digit_val c))) 0 s))"

text \<open>
  The dialog keeps \<open>bad_chkbts\<close>, a dict from the label to its check box, filled by
  \<open>initui\<close> for \<open>x\<close> in \<open>range(1, channel_count + 1)\<close>. The model keeps the dict in
  insertion order, each label with whether its box is checked.
\<close>

definition channel_count :: nat where
  "channel_count = 122"

definition initui_chkbts :: "(string \<times> bool) list" where
  "initui_chkbts = map (\<lambda>x. (ch_name x, False)) [1 ..< channel_count + 1]"

text \<open>
  The loop of \<open>bad_dict_assign\<close>: for every checked box, the label goes to
  \<open>bad_channels\<close> and \<open>int(ch[-3:])\<close> to \<open>second_list\<close>, which is what
  \<open>dict_filehandler\<close> is given to save.
\<close>

fun bad_dict_assign ::
  "(string \<times> bool) list \<Rightarrow> string list \<Rightarrow> int list \<Rightarrow> error + (string list \<times> int list)" where
  "bad_dict_assign [] bad_channels second_list = Inr (bad_channels, second_list)"
| "bad_dict_assign ((ch, checked) # rest) bad_channels second_list =
     (if checked then
        (case py_int (last3 ch) of
           Inl e \<Rightarrow> Inl e
         | Inr v \<Rightarrow> bad_dict_assign rest (bad_channels @ [ch]) (second_list @ [v]))
      else bad_dict_assign rest bad_channels second_list)"

section \<open>The older window: Start, Stop and the launcher (gui\_functions.py)\<close>

record old_window =
  visible :: bool
  make_it_stop :: bool
  bt_dict :: "string list"
  func_dict :: "(string \<times> nat) list"

datatype button = Clear | Start | Stop

text \<open>\<open>self.close()\<close>: the close event is accepted and the window is hidden.\<close>

definition close_window :: "old_window \<Rightarrow> old_window" where
  "close_window w = w\<lparr>visible := False\<rparr>"

definition old_clear :: "old_window \<Rightarrow> old_window" where
  "old_clear w = w\<lparr>func_dict := map (\<lambda>(k, v). if k \<in> set (bt_dict w) then (k, 0) else (k, v)) (func_dict w)\<rparr>"

definition old_start :: "old_window \<Rightarrow> old_window" where
  "old_start w = close_window w"

definition old_stop :: "old_window \<Rightarrow> old_window" where
  "old_stop w = (close_window w)\<lparr>make_it_stop := True\<rparr>"

definition press :: "button \<Rightarrow> old_window \<Rightarrow> old_window" where
  "press b w = (case b of Clear \<Rightarrow> old_clear w | Start \<Rightarrow> old_start w | Stop \<Rightarrow> old_stop w)"

text \<open>
  \<open>app.exec_()\<close>: the event loop handles the button presses while the window is shown
  and returns once the last window is closed. A list that ends with the window still shown
  stands for the user closing it from the title bar.
\<close>

fun app_exec :: "button list \<Rightarrow> old_window \<Rightarrow> old_window" where
  "app_exec [] w = close_window w"
| "app_exec (b # bs) w = (if visible w then app_exec bs (press b w) else w)"

text \<open>\<open>MainWindow.__init__\<close> sets \<open>make_it_stop = False\<close>; \<open>win.show()\<close> shows the window.\<close>

definition init_window :: "string list \<Rightarrow> (string \<times> nat) list \<Rightarrow> old_window" where
  "init_window bts fd = \<lparr>visible = True, make_it_stop = False, bt_dict = bts, func_dict = fd\<rparr>"

text \<open>
  The launcher: after the event loop it reads \<open>win.make_it_stop\<close> and raises
  \<open>SystemExit(0)\<close> when it is set; otherwise the script runs on.
\<close>

definition launcher :: "string list \<Rightarrow> (string \<times> nat) list \<Rightarrow> button list \<Rightarrow> error + unit" where
  "launcher bts fd presses =
     (let win = app_exec presses (init_window bts fd)
      in if make_it_stop win then Inl (SystemExit 0) else Inr ())"

section \<open>Settings of the newer window (main\_window.py)\<close>

text \<open>
  The values a settings file holds, as far as the code tells them apart: \<open>None\<close>,
  booleans, integers, strings and lists. A Python dict is kept as an association list in
  insertion order; \<open>AList.update\<close> is the assignment \<open>d[k] = v\<close>, which replaces the
  value of a key in place and appends a new key.
\<close>

datatype json = JNull | JBool bool | JNum int | JStr string | JList "json list"

type_synonym 'v dict = "(string \<times> 'v) list"

definition dict_get :: "'v dict \<Rightarrow> string \<Rightarrow> error + 'v" where
  "dict_get d k = (case map_of d k of None \<Rightarrow> Inl (KeyError k) | Some v \<Rightarrow> Inr v)"

text \<open>
  What \<open>open(...)\<close> and \<open>json.load\<close> give for the settings file: it is missing, or it
  holds the JSON object \<open>save_settings\<close> wrote.
\<close>

datatype 'v settings_file = FileNotFound | JsonObject "'v dict"

record 'v settings_store =
  settings :: "'v dict"
  default_settings :: "'v dict"

text \<open>
  The loop of \<open>load_settings\<close> over the keys of \<open>default_settings\<close> that are not in
  the loaded settings; the list of keys is built before the loop runs.
\<close>

fun fill_defaults :: "'v dict \<Rightarrow> string list \<Rightarrow> 'v dict \<Rightarrow> error + 'v dict" where
  "fill_defaults defaults [] st = Inr st"
| "fill_defaults defaults (s # ss) st =
     (case dict_get defaults s of
        Inl e \<Rightarrow> Inl e
      | Inr v \<Rightarrow> fill_defaults defaults ss (AList.update s v st))"

definition load_settings :: "'v dict \<Rightarrow> 'v settings_file \<Rightarrow> error + 'v settings_store" where
  "load_settings defaults file =
     (case file of
        FileNotFound \<Rightarrow> Inr \<lparr>settings = defaults, default_settings = defaults\<rparr>
      | JsonObject loaded \<Rightarrow>
          (case fill_defaults defaults
                  (filter (\<lambda>s. s \<notin> set (map fst loaded)) (map fst defaults)) loaded of
             Inl e \<Rightarrow> Inl e
           | Inr st \<Rightarrow> Inr \<lparr>settings = st, default_settings = defaults\<rparr>))"

definition get_setting :: "'v settings_store \<Rightarrow> string \<Rightarrow> error + 'v" where
  "get_setting w setting =
     (case dict_get (settings w) setting of
        Inr value \<Rightarrow> Inr value
      | Inl (KeyError k) \<Rightarrow> dict_get (default_settings w) setting
      | Inl e \<Rightarrow> Inl e)"

section \<open>Project discovery\<close>

text \<open>
  The operating system as the two windows use it: the entries of a directory, whether a
  path is a directory, and \<open>os.path.join\<close>.
\<close>

record os_env =
  listdir :: "string \<Rightarrow> string list"
  isdir :: "string \<Rightarrow> bool"
  join :: "string list \<Rightarrow> string"

text \<open>\<open>x in projects\<close>, where \<open>projects\<close> holds strings and \<open>x\<close> is any value.\<close>

definition in_projects :: "json \<Rightarrow> string list \<Rightarrow> bool" where
  "in_projects x ps = (case x of JStr s \<Rightarrow> s \<in> set ps | _ \<Rightarrow> False)"

subsection \<open>The newer window: \<open>get_projects\<close>\<close>

record main_window =
  store :: "json settings_store"
  home_path :: string
  projects_path :: string
  current_project :: json
  projects :: "string list"

text \<open>
  One round of the dialogs of \<open>get_projects\<close>: the text and the \<open>ok\<close> flag of
  \<open>QInputDialog.getText\<close>, and what comes of the question box of the \<open>else\<close> branch.
  There \<open>QMessageBox.question\<close> already returns the button pressed and the code calls
  \<open>exec()\<close> on that value, so \<open>ExecRaises\<close> is what happens when the button value has no
  such method; the two answers are kept for a value that would have one.
\<close>

datatype cancel_reply = ExecRaises | AnswerYes | AnswerNo

type_synonym reply = "string \<times> bool \<times> cancel_reply"

definition set_setting :: "string \<Rightarrow> json \<Rightarrow> main_window \<Rightarrow> main_window" where
  "set_setting k v w = w\<lparr>store := (store w)\<lparr>settings := AList.update k v (settings (store w))\<rparr>\<rparr>"

text \<open>
  The \<open>while checking_projects\<close> loop. It runs as long as the user keeps answering; a
  list of replies that ends before the loop does gives \<open>None\<close>.
\<close>

fun checking_projects :: "reply list \<Rightarrow> main_window \<Rightarrow> (error + main_window) option" where
  "checking_projects [] w = None"
| "checking_projects ((text, ok, cancel) # rs) w =
     (let w1 = w\<lparr>current_project := JStr text\<rparr> in
      if ok \<and> text \<noteq> [] then
        Some (Inr (set_setting ''current_project'' (JStr text) (w1\<lparr>projects := projects w1 @ [text]\<rparr>)))
      else
        (case cancel of
           ExecRaises \<Rightarrow> Some (Inl AttributeError)
         | AnswerYes \<Rightarrow> Some (Inl (RuntimeError ''User canceled start''))
         | AnswerNo \<Rightarrow> checking_projects rs w1))"

definition get_projects :: "os_env \<Rightarrow> reply list \<Rightarrow> main_window \<Rightarrow> (error + main_window) option" where
  "get_projects os replies w =
     (case get_setting (store w) ''current_project'' of
        Inl e \<Rightarrow> Some (Inl e)
      | Inr cp \<Rightarrow>
          (let w1 = w\<lparr>current_project := cp,
                       projects := filter (\<lambda>p. isdir os (join os [projects_path w, p, ''data'']))
                                     (listdir os (projects_path w))\<rparr>
           in if length (projects w1) = 0 then checking_projects replies w1
              else if current_project w1 = JNull \<or> \<not> in_projects (current_project w1) (projects w1) then
                Some (Inr (set_setting ''current_project'' (JStr (projects w1 ! 0))
                             (w1\<lparr>current_project := JStr (projects w1 ! 0)\<rparr>)))
              else Some (Inr w1)))"

subsection \<open>The older window: \<open>get_paths\<close>\<close>

text \<open>
  \<open>QSettings\<close> is a store of keys and values; \<open>value\<close> gives \<open>None\<close> for a key that
  was never set.
\<close>

record old_paths =
  qsettings :: "json dict"
  old_home_path :: json
  project_name :: json
  old_projects :: "string list"
  closed :: bool

definition qvalue :: "json dict \<Rightarrow> string \<Rightarrow> json" where
  "qvalue q k = (case map_of q k of None \<Rightarrow> JNull | Some v \<Rightarrow> v)"

definition set_value :: "string \<Rightarrow> json \<Rightarrow> old_paths \<Rightarrow> old_paths" where
  "set_value k v w = w\<lparr>qsettings := AList.update k v (qsettings w)\<rparr>"

text \<open>
  The first half of \<open>get_paths\<close>: the home path comes from the settings, or from the
  directory dialog (whose answer is \<open>hp\<close>) when none is stored or the stored one is no
  directory. The stored value is a string whenever it is not \<open>None\<close>.
\<close>

definition path_of :: "json \<Rightarrow> string" where
  "path_of v = (case v of JStr s \<Rightarrow> s | _ \<Rightarrow> [])"

definition get_home :: "os_env \<Rightarrow> string \<Rightarrow> old_paths \<Rightarrow> error + old_paths" where
  "get_home os hp w0 =
     (let w = w0\<lparr>old_home_path := qvalue (qsettings w0) ''home_path''\<rparr> in
      if old_home_path w = JNull \<or> \<not> isdir os (path_of (old_home_path w)) then
        (if hp = [] then Inl (RuntimeError ''You canceled an important step, start over'')
         else Inr (set_value ''home_path'' (JStr hp) (w\<lparr>old_home_path := JStr hp\<rparr>)))
      else Inr w)"

text \<open>
  The second half: the project name and the projects found under the home path. The reply
  is that of \<open>QInputDialog.getText\<close>, asked only when no project is found.
  \<open>make_paths\<close> derives further paths from the two names and creates them on disk; it
  touches neither \<open>project_name\<close> nor \<open>projects\<close>.
\<close>

definition get_project_name :: "os_env \<Rightarrow> string \<times> bool \<Rightarrow> old_paths \<Rightarrow> error + old_paths" where
  "get_project_name os reply w0 =
     (let w = w0\<lparr>project_name := qvalue (qsettings w0) ''project_name'',
                  old_projects := filter (\<lambda>p. isdir os (join os [path_of (old_home_path w0), p, ''data'']))
                                    (listdir os (path_of (old_home_path w0)))\<rparr>
      in if length (old_projects w) = 0 then
           (case reply of (text, ok) \<Rightarrow>
              if ok then
                Inr (set_value ''project_name'' (JStr text)
                       (w\<lparr>project_name := JStr text, old_projects := old_projects w @ [text]\<rparr>))
              else Inl (RuntimeError ''You canceled an important step, start over''))
         else if project_name w = JNull \<or> \<not> in_projects (project_name w) (old_projects w) then
           Inr (set_value ''project_name'' (JStr (old_projects w ! 0))
                  (w\<lparr>project_name := JStr (old_projects w ! 0)\<rparr>))
         else Inr w)"

definition get_paths :: "os_env \<Rightarrow> string \<Rightarrow> string \<times> bool \<Rightarrow> old_paths \<Rightarrow> error + old_paths" where
  "get_paths os hp reply w =
     (case get_home os hp w of
        Inl e \<Rightarrow> Inl e
      | Inr w1 \<Rightarrow> get_project_name os reply w1)"


section \<open>Assigning an entry of a sub-dict file (gui\_functions.py)\<close>

text \<open>
  \<open>read_sub_dict\<close> belongs to the module \<open>subject_organisation\<close> and is a parameter
  here: it turns the text of the file into a dict, whose values are taken as the text
  that \<open>f'{key}:{value}'\<close> prints for them. The file is \<open>None\<close> when \<open>isfile\<close> is
  false, and the two choices are the texts of the current items of the two list widgets;
  \<open>currentItem()\<close> is \<open>None\<close> when nothing is selected, and \<open>.text()\<close> then raises.
\<close>

definition dict_line :: "string \<Rightarrow> string \<Rightarrow> string" where
  "dict_line key val = key @ '':'' @ val @ [CHR 0x0A]"

definition write_dict :: "string dict \<Rightarrow> string" where
  "write_dict d = concat (map (\<lambda>(key, val). dict_line key val) d)"

definition assign_entry :: "string dict \<Rightarrow> string \<Rightarrow> string \<Rightarrow> string dict" where
  "assign_entry existing_dict choice1 choice2 =
     (if choice1 \<in> set (map fst existing_dict) then AList.update choice1 choice2 existing_dict
      else AList.update choice1 choice2 existing_dict)"

definition sub_dict_assign ::
  "(string \<Rightarrow> string dict) \<Rightarrow> string option \<Rightarrow> string option \<Rightarrow> string option \<Rightarrow> error + string" where
  "sub_dict_assign read_sub_dict file item1 item2 =
     (case item1 of
        None \<Rightarrow> Inl AttributeError
      | Some choice1 \<Rightarrow>
          (case item2 of
             None \<Rightarrow> Inl AttributeError
           | Some choice2 \<Rightarrow>
               (case file of
                  None \<Rightarrow> Inr (dict_line choice1 choice2)
                | Some content \<Rightarrow>
                    Inr (write_dict (assign_entry (read_sub_dict content) choice1 choice2)))))"


section \<open>Starting a run in the newer window (main\_window.py)\<close>

text \<open>
  The attributes \<open>start\<close> reads and writes, on top of those of project discovery: the
  flag \<open>pipeline_running\<close>, the message boxes shown so far (title and text), the
  matplotlib backend, and the settings file as \<open>save_settings\<close> last wrote it. Two
  counters that the program does not hold are kept beside them to state the property: how
  many run dialogs were created, and how many runs are in progress.
\<close>

record start_window = main_window +
  pipeline_running :: bool
  boxes :: "(string \<times> string) list"
  backend :: string
  settings_json :: "json dict option"
  dialogs_created :: nat
  runs_in_progress :: nat

text \<open>
  The calls of \<open>start\<close> into code that is not modelled, each with the exception it
  raises, if any: \<open>self.pr.save()\<close>, reloading the basic modules and re-executing the
  custom ones.
\<close>

record calls =
  project_save :: "error option"
  reload_basic_modules :: "error option"
  reload_custom_modules :: "error option"

text \<open>Truth of a value in a condition, as in \<open>if self.get_setting('show_plots')\<close>.\<close>

definition truthy :: "json \<Rightarrow> bool" where
  "truthy v = (case v of JNull \<Rightarrow> False | JBool b \<Rightarrow> b | JNum n \<Rightarrow> n \<noteq> 0
                | JStr s \<Rightarrow> s \<noteq> [] | JList l \<Rightarrow> l \<noteq> [])"

text \<open>
  Modelled from the spec: the class \<open>RunDialog\<close>, which is not among the sources. The
  sources say of the flag "True, if Pipeline is running (to avoid parallel starts of
  RunDialog)", and the spec that the analysis runs on one worker thread at a time: creating
  the dialog starts the run and sets the flag, and the end of the run clears it.
\<close>

definition RunDialog :: "start_window \<Rightarrow> start_window" where
  "RunDialog w = w\<lparr>pipeline_running := True,
                    dialogs_created := Suc (dialogs_created w),
                    runs_in_progress := Suc (runs_in_progress w)\<rparr>"

definition run_finished :: "start_window \<Rightarrow> start_window" where
  "run_finished w =
     (if runs_in_progress w = 0 then w
      else w\<lparr>pipeline_running := False, runs_in_progress := runs_in_progress w - 1\<rparr>)"

text \<open>
  \<open>save_main\<close>: the project is saved, the current project is put into the settings and
  the settings are written to their file.
\<close>

definition save_main :: "calls \<Rightarrow> start_window \<Rightarrow> start_window \<times> error option" where
  "save_main c w =
     (case project_save c of
        Some e \<Rightarrow> (w, Some e)
      | None \<Rightarrow>
          (let st = AList.update ''current_project'' (current_project w) (settings (store w))
           in (w\<lparr>store := (store w)\<lparr>settings := st\<rparr>, settings_json := Some st\<rparr>, None)))"

text \<open>
  \<open>start\<close>. An exception leaves the slot at once; the window keeps what was done up to
  there, and the result names the exception.
\<close>

definition start :: "calls \<Rightarrow> start_window \<Rightarrow> start_window \<times> error option" where
  "start c w =
     (if pipeline_running w then
        (w\<lparr>boxes := boxes w @ [(''Already running!'', ''The Pipeline is already running!'')]\<rparr>, None)
      else
        (case save_main c w of
           (w1, Some e) \<Rightarrow> (w1, Some e)
         | (w1, None) \<Rightarrow>
             (case reload_basic_modules c of
                Some e \<Rightarrow> (w1, Some e)
              | None \<Rightarrow>
                  (case reload_custom_modules c of
                     Some e \<Rightarrow> (w1, Some e)
                   | None \<Rightarrow>
                       (case get_setting (store w1) ''show_plots'' of
                          Inl e \<Rightarrow> (w1, Some e)
                        | Inr show_plots \<Rightarrow>
                            (RunDialog (w1\<lparr>backend := (if truthy show_plots then ''Qt5Agg'' else ''agg'')\<rparr>),
                             None))))))"

text \<open>
  What happens to the window over time: the user presses Start, or a run comes to its end.
  \<open>__init__\<close> sets \<open>pipeline_running\<close> to \<open>False\<close>; no run is in progress then.
\<close>

datatype event = PressStart calls | RunFinished

definition step :: "start_window \<Rightarrow> event \<Rightarrow> start_window" where
  "step w e = (case e of PressStart c \<Rightarrow> fst (start c w) | RunFinished \<Rightarrow> run_finished w)"

definition initial :: "start_window \<Rightarrow> bool" where
  "initial w = (\<not> pipeline_running w \<and> runs_in_progress w = 0 \<and> dialogs_created w = 0)"

definition run_events :: "event list \<Rightarrow> start_window \<Rightarrow> start_window" where
  "run_events es w = foldl step w es"

text \<open>At most one run is in progress, and the flag is set exactly when one is.\<close>

definition running_inv :: "start_window \<Rightarrow> bool" where
  "running_inv w = (runs_in_progress w \<le> 1 \<and> (pipeline_running w = (runs_in_progress w = 1)))"


section \<open>Properties\<close>

subsection \<open>Bad-channel labels\<close>

lemma digit_val_digit_char: "d < 10 \<Longrightarrow> digit_val (digit_char d) = Some d"
proof -
  assume "d < 10"
  then have "d \<in> {0, 1, 2, 3, 4, 5, 6, 7, 8, 9}" by auto
  then show ?thesis
    by (auto simp: digit_val_def digit_char_def)
qed

lemma str_nat_1: "x < 10 \<Longrightarrow> str_nat x = [digit_char x]"
  by (subst str_nat.simps) simp

lemma str_nat_step: "10 \<le> x \<Longrightarrow> str_nat x = str_nat (x div 10) @ [digit_char (x mod 10)]"
  by (subst str_nat.simps) simp

lemma format_03_digits:
  "x < 1000 \<Longrightarrow>
   format_03 x = [digit_char (x div 100), digit_char (x div 10 mod 10), digit_char (x mod 10)]"
proof -
  assume x: "x < 1000"
  have z: "digit_char 0 = CHR ''0''" by (simp add: digit_char_def)
  consider "x < 10" | "10 \<le> x" "x < 100" | "100 \<le> x"
    by linarith
  then show ?thesis
  proof cases
    case 1
    then have "str_nat x = [digit_char x]" by (rule str_nat_1)
    with 1 show ?thesis
      by (simp add: format_03_def z numeral_2_eq_2)
  next
    case 2
    then have d: "x div 10 < 10" by simp
    have "str_nat x = [digit_char (x div 10), digit_char (x mod 10)]"
      using 2 d by (simp add: str_nat_step str_nat_1)
    moreover have "x div 100 = 0" "x div 10 mod 10 = x div 10" using 2 d by simp_all
    ultimately show ?thesis
      by (simp add: format_03_def z)
  next
    case 3
    with x have a: "10 \<le> x div 10" "x div 10 div 10 < 10" "10 \<le> x" by auto
    have b: "x div 10 div 10 = x div 100" by (simp add: div_mult2_eq)
    have "str_nat (x div 10) = [digit_char (x div 10 div 10), digit_char (x div 10 mod 10)]"
      using a by (simp only: str_nat_step [OF a(1)] str_nat_1 [OF a(2)] append_Cons append_Nil)
    then have "str_nat x = [digit_char (x div 100), digit_char (x div 10 mod 10), digit_char (x mod 10)]"
      using a b by (simp only: str_nat_step [OF a(3)] append_Cons append_Nil)
    then show ?thesis
      by (simp add: format_03_def)
  qed
qed

lemma py_int_three_digits:
  "a < 10 \<Longrightarrow> b < 10 \<Longrightarrow> c < 10 \<Longrightarrow>
   py_int [digit_char a, digit_char b, digit_char c] = Inr (int (100 * a + 10 * b + c))"
  by (simp add: py_int_def digit_val_digit_char)

lemma three_digits_value: "100 * (x div 100) + 10 * (x div 10 mod 10) + x mod 10 = (x::nat)"
proof -
  have "x div 100 = x div 10 div 10" by (simp add: div_mult2_eq)
  moreover have "x div 10 = 10 * (x div 10 div 10) + x div 10 mod 10" by simp
  moreover have "x = 10 * (x div 10) + x mod 10" by simp
  ultimately show ?thesis by linarith
qed

lemma py_int_last3_ch_name: "x < 1000 \<Longrightarrow> py_int (last3 (ch_name x)) = Inr (int x)"
proof -
  assume x: "x < 1000"
  have "last3 (ch_name x) = [digit_char (x div 100), digit_char (x div 10 mod 10), digit_char (x mod 10)]"
    using x by (simp add: last3_def ch_name_def format_03_digits)
  moreover have "x div 100 < 10" "x div 10 mod 10 < 10" "x mod 10 < 10"
    using x by auto
  ultimately show ?thesis
    by (simp only: py_int_three_digits three_digits_value)
qed

lemma bad_dict_assign_labels:
  "\<forall>x \<in> set xs. x < 1000 \<Longrightarrow>
   bad_dict_assign (map (\<lambda>x. (ch_name x, checked x)) xs) bc sl =
     Inr (bc @ map ch_name (filter checked xs), sl @ map int (filter checked xs))"
  by (induction xs arbitrary: bc sl) (simp_all add: py_int_last3_ch_name)

text \<open>
  C10. For every channel number \<open>x\<close> from 1 to 122 the label is \<open>MEG\<close>, a blank and
  \<open>x\<close> written with three digits, and \<open>int(ch[-3:])\<close> gives \<open>x\<close> back. Hence, whatever
  boxes are checked, \<open>bad_dict_assign\<close> raises nothing, \<open>second_list\<close> holds the
  numbers of the checked channels in order, and their labels are exactly \<open>bad_channels\<close>.
\<close>

theorem bad_channel_label_left_inverse:
  "(\<forall>x \<in> {1 .. channel_count}.
      ch_name x = ''MEG '' @ [digit_char (x div 100), digit_char (x div 10 mod 10), digit_char (x mod 10)]
      \<and> py_int (last3 (ch_name x)) = Inr (int x))
   \<and> map fst initui_chkbts = map ch_name [1 ..< channel_count + 1]
   \<and> (\<forall>checked.
        bad_dict_assign (map (\<lambda>x. (ch_name x, checked x)) [1 ..< channel_count + 1]) [] [] =
          Inr (map ch_name (filter checked [1 ..< channel_count + 1]),
               map int (filter checked [1 ..< channel_count + 1])))"
proof (intro conjI ballI allI)
  fix x assume "x \<in> {1 .. channel_count}"
  then have x: "x < 1000" by (simp add: channel_count_def)
  show "ch_name x = ''MEG '' @ [digit_char (x div 100), digit_char (x div 10 mod 10), digit_char (x mod 10)]"
    using x by (simp add: ch_name_def format_03_digits)
  show "py_int (last3 (ch_name x)) = Inr (int x)"
    using x by (rule py_int_last3_ch_name)
next
  show "map fst initui_chkbts = map ch_name [1 ..< channel_count + 1]"
    by (simp add: initui_chkbts_def comp_def)
next
  fix checked :: "nat \<Rightarrow> bool"
  have "\<forall>x \<in> set [1 ..< channel_count + 1]. x < 1000"
    by (simp add: channel_count_def)
  from bad_dict_assign_labels [OF this, of checked "[]" "[]"]
  show "bad_dict_assign (map (\<lambda>x. (ch_name x, checked x)) [1 ..< channel_count + 1]) [] [] =
          Inr (map ch_name (filter checked [1 ..< channel_count + 1]),
               map int (filter checked [1 ..< channel_count + 1]))"
    by simp
qed

theorem bad_channel_label_left_inverse_witness:
  "(7::nat) \<in> {1 .. channel_count} \<and> ch_name 7 = ''MEG 007'' \<and> py_int (last3 ''MEG 007'') = Inr 7"
proof -
  have m: "(7::nat) \<in> {1 .. channel_count}" by (simp add: channel_count_def)
  have d: "digit_char 0 = CHR ''0''" "digit_char 7 = CHR ''7''" by (simp_all add: digit_char_def)
  from bad_channel_label_left_inverse m
  have t: "ch_name 7 = ''MEG '' @ [digit_char (7 div 100), digit_char (7 div 10 mod 10), digit_char (7 mod 10)]
        \<and> py_int (last3 (ch_name 7)) = Inr (int 7)"
    by blast
  from t have n: "ch_name 7 = ''MEG 007''" by (simp add: d)
  from t have "py_int (last3 (ch_name 7)) = Inr (int 7)" by (rule conjunct2)
  then have p: "py_int (last3 (ch_name 7)) = Inr 7" by simp
  have "py_int (last3 ''MEG 007'') = Inr 7" using p unfolding n .
  with m n show ?thesis by blast
qed

subsection \<open>The older window\<close>

lemma app_exec_hidden: "\<not> visible w \<Longrightarrow> app_exec bs w = w"
  by (cases bs) (simp_all add: close_window_def)

lemma app_exec_clears:
  "visible w \<Longrightarrow> app_exec (replicate n Clear @ bs) w = app_exec bs ((old_clear ^^ n) w)"
proof (induction n arbitrary: w)
  case 0
  then show ?case by simp
next
  case (Suc n)
  have "visible (old_clear w)" using Suc.prems by (simp add: old_clear_def)
  from Suc.IH [OF this] Suc.prems show ?case
    by (simp add: press_def funpow_swap1)
qed

lemma old_clear_pow_fields:
  "visible ((old_clear ^^ n) w) = visible w \<and> make_it_stop ((old_clear ^^ n) w) = make_it_stop w"
  by (induction n) (simp_all add: old_clear_def)

text \<open>
  C4. Stop closes the window and sets \<open>make_it_stop\<close>, Start closes it and leaves the flag
  as it is. Whatever comes before (presses of Clear) and after, the launcher raises
  \<open>SystemExit(0)\<close> when the window was closed by Stop, and returns normally, so that the
  script goes on, when it was closed by Start.
\<close>

theorem old_window_start_stop:
  "old_stop w = w\<lparr>visible := False, make_it_stop := True\<rparr>
   \<and> old_start w = w\<lparr>visible := False\<rparr>
   \<and> make_it_stop (app_exec (replicate n Clear @ Start # rest) (init_window bts fd)) = False
   \<and> launcher bts fd (replicate n Clear @ Stop # rest) = Inl (SystemExit 0)
   \<and> launcher bts fd (replicate n Clear @ Start # rest) = Inr ()"
proof -
  let ?w = "init_window bts fd"
  have v: "visible ?w" "\<not> make_it_stop ?w" by (simp_all add: init_window_def)
  let ?c = "(old_clear ^^ n) ?w"
  have c: "visible ?c" "\<not> make_it_stop ?c" using v by (simp_all add: old_clear_pow_fields)
  have stop: "app_exec (replicate n Clear @ Stop # rest) ?w = old_stop ?c"
    using c by (simp add: app_exec_clears [OF v(1)] press_def app_exec_hidden old_stop_def close_window_def)
  have start: "app_exec (replicate n Clear @ Start # rest) ?w = old_start ?c"
    using c by (simp add: app_exec_clears [OF v(1)] press_def app_exec_hidden old_start_def close_window_def)
  show ?thesis
    using c by (simp add: launcher_def stop start old_stop_def old_start_def close_window_def)
qed

subsection \<open>Settings\<close>

lemma fill_defaults_map_of:
  "set ss \<subseteq> set (map fst defaults) \<Longrightarrow>
   \<exists>st'. fill_defaults defaults ss st = Inr st'
     \<and> (\<forall>k. map_of st' k = (if k \<in> set ss then map_of defaults k else map_of st k))
     \<and> set (map fst st') = set (map fst st) \<union> set ss"
proof (induction ss arbitrary: st)
  case Nil
  then show ?case by simp
next
  case (Cons s ss)
  then have "s \<in> fst ` set defaults" by simp
  then have "map_of defaults s \<noteq> None" by (simp add: map_of_eq_None_iff)
  then obtain v where v: "map_of defaults s = Some v" by blast
  from Cons.prems have "set ss \<subseteq> set (map fst defaults)" by simp
  from Cons.IH [OF this, of "AList.update s v st"]
  obtain st' where st': "fill_defaults defaults ss (AList.update s v st) = Inr st'"
    "\<forall>k. map_of st' k = (if k \<in> set ss then map_of defaults k else map_of (AList.update s v st) k)"
    "set (map fst st') = set (map fst (AList.update s v st)) \<union> set ss"
    by blast
  have "fill_defaults defaults (s # ss) st = Inr st'"
    using v st'(1) by (simp add: dict_get_def)
  moreover have "\<forall>k. map_of st' k = (if k \<in> set (s # ss) then map_of defaults k else map_of st k)"
    using st'(2) v by (auto simp: update_conv')
  moreover have "set (map fst st') = set (map fst st) \<union> set (s # ss)"
  proof -
    have "set (map fst (AList.update s v st)) = insert s (set (map fst st))"
      by (simp add: update_keys insert_absorb)
    with st'(3) show ?thesis by auto
  qed
  ultimately show ?case by blast
qed


lemma get_setting_cases:
  "get_setting w s =
     (case map_of (settings w) s of
        Some v \<Rightarrow> Inr v
      | None \<Rightarrow> (case map_of (default_settings w) s of Some v \<Rightarrow> Inr v | None \<Rightarrow> Inl (KeyError s)))"
  by (simp add: get_setting_def dict_get_def split: option.splits)

text \<open>
  C7. \<open>load_settings\<close> raises nothing and leaves settings that hold every key of the
  defaults: without a settings file they are the defaults, with one they are the loaded
  entries plus the defaults of the keys the file lacks. \<open>get_setting\<close> gives the entry of
  the settings when there is one and that of the defaults otherwise, and raises for no key
  of the defaults.
\<close>

theorem load_settings_covers_defaults:
  "\<exists>w. load_settings defaults file = Inr w
     \<and> default_settings w = defaults
     \<and> set (map fst defaults) \<subseteq> set (map fst (settings w))
     \<and> (file = FileNotFound \<longrightarrow> settings w = defaults)
     \<and> (\<forall>loaded. file = JsonObject loaded \<longrightarrow>
           (\<forall>k. map_of (settings w) k =
              (case map_of loaded k of Some v \<Rightarrow> Some v | None \<Rightarrow> map_of defaults k)))
     \<and> (\<forall>s v. map_of (settings w) s = Some v \<longrightarrow> get_setting w s = Inr v)
     \<and> (\<forall>s. map_of (settings w) s = None \<longrightarrow> get_setting w s = dict_get defaults s)
     \<and> (\<forall>s \<in> set (map fst defaults). \<exists>v. get_setting w s = Inr v)"
proof (cases "file")
  case FileNotFound
  let ?w = "\<lparr>settings = defaults, default_settings = defaults\<rparr>"
  have l: "load_settings defaults file = Inr ?w"
    using FileNotFound by (simp add: load_settings_def)
  have "\<forall>s \<in> set (map fst defaults). \<exists>v. get_setting ?w s = Inr v"
  proof
    fix s assume "s \<in> set (map fst defaults)"
    then have "map_of defaults s \<noteq> None" by (simp add: map_of_eq_None_iff)
    then show "\<exists>v. get_setting ?w s = Inr v"
      by (auto simp: get_setting_cases)
  qed
  with l FileNotFound show ?thesis
    by (simp add: get_setting_cases dict_get_def)
next
  case (JsonObject loaded)
  let ?ss = "filter (\<lambda>s. s \<notin> set (map fst loaded)) (map fst defaults)"
  have "set ?ss \<subseteq> set (map fst defaults)" by auto
  from fill_defaults_map_of [OF this, of loaded]
  obtain st where st: "fill_defaults defaults ?ss loaded = Inr st"
    "\<forall>k. map_of st k = (if k \<in> set ?ss then map_of defaults k else map_of loaded k)"
    "set (map fst st) = set (map fst loaded) \<union> set ?ss"
    by blast
  let ?w = "\<lparr>settings = st, default_settings = defaults\<rparr>"
  have l: "load_settings defaults file = Inr ?w"
    using JsonObject st(1) by (simp add: load_settings_def)
  have sub: "set (map fst defaults) \<subseteq> set (map fst st)"
    using st(3) by auto
  have m: "\<forall>k. map_of st k = (case map_of loaded k of Some v \<Rightarrow> Some v | None \<Rightarrow> map_of defaults k)"
  proof
    fix k
    show "map_of st k = (case map_of loaded k of Some v \<Rightarrow> Some v | None \<Rightarrow> map_of defaults k)"
    proof (cases "map_of loaded k")
      case None
      then have nk: "k \<notin> set (map fst loaded)" by (simp add: map_of_eq_None_iff)
      show ?thesis
      proof (cases "k \<in> set (map fst defaults)")
        case True
        with nk st(2) None show ?thesis by simp
      next
        case False
        then have "map_of defaults k = None" by (simp add: map_of_eq_None_iff)
        with False st(2) None show ?thesis by simp
      qed
    next
      case (Some v)
      then have "k \<in> set (map fst loaded)"
        by (metis map_of_eq_None_iff option.distinct(1) set_map)
      with st(2) Some show ?thesis by simp
    qed
  qed
  have g: "\<forall>s \<in> set (map fst defaults). \<exists>v. get_setting ?w s = Inr v"
  proof
    fix s assume "s \<in> set (map fst defaults)"
    then have "map_of defaults s \<noteq> None" by (simp add: map_of_eq_None_iff)
    then show "\<exists>v. get_setting ?w s = Inr v"
      by (auto simp: get_setting_cases split: option.splits)
  qed
  from l sub m g JsonObject show ?thesis
    by (simp add: get_setting_cases dict_get_def)
qed

theorem load_settings_covers_defaults_witness:
  "load_settings [(''show_plots'', JBool True), (''current_project'', JNull)]
     (JsonObject [(''current_project'', JStr ''p1'')])
   = Inr \<lparr>settings = [(''current_project'', JStr ''p1''), (''show_plots'', JBool True)],
          default_settings = [(''show_plots'', JBool True), (''current_project'', JNull)]\<rparr>
   \<and> get_setting \<lparr>settings = [(''current_project'', JStr ''p1''), (''show_plots'', JBool True)],
          default_settings = [(''show_plots'', JBool True), (''current_project'', JNull)]\<rparr> ''show_plots''
     = Inr (JBool True)"
proof -
  let ?d = "[(''show_plots'', JBool True), (''current_project'', JNull)]"
  let ?f = "JsonObject [(''current_project'', JStr ''p1'')]"
  let ?w = "\<lparr>settings = [(''current_project'', JStr ''p1''), (''show_plots'', JBool True)],
          default_settings = ?d\<rparr>"
  have l: "load_settings ?d ?f = Inr ?w"
    by (simp add: load_settings_def dict_get_def)
  from load_settings_covers_defaults [of ?d ?f]
  obtain w where w: "load_settings ?d ?f = Inr w"
    "\<forall>s \<in> set (map fst ?d). \<exists>v. get_setting w s = Inr v"
    "\<forall>s v. map_of (settings w) s = Some v \<longrightarrow> get_setting w s = Inr v"
    by blast
  from w(1) l have e: "w = ?w" by simp
  have "map_of (settings ?w) ''show_plots'' = Some (JBool True)" by simp
  with w(3) e have "get_setting ?w ''show_plots'' = Inr (JBool True)" by blast
  with l show ?thesis by blast
qed

subsection \<open>Project discovery\<close>

lemma checking_projects_result:
  "checking_projects rs w = Some (Inr w') \<Longrightarrow>
   \<exists>nm. nm \<noteq> [] \<and> projects w' = projects w @ [nm] \<and> current_project w' = JStr nm
     \<and> map_of (settings (store w')) ''current_project'' = Some (JStr nm)"
proof (induction rs arbitrary: w)
  case Nil
  then show ?case by simp
next
  case (Cons r rs)
  obtain nm ok cancel where r: "r = (nm, ok, cancel)" by (cases r)
  show ?case
  proof (cases "ok \<and> nm \<noteq> []")
    case True
    with Cons.prems r
    have "w' = set_setting ''current_project'' (JStr nm)
                 (w\<lparr>current_project := JStr nm, projects := projects w @ [nm]\<rparr>)"
      by simp
    with True show ?thesis
      by (auto simp: set_setting_def update_conv')
  next
    case False
    with Cons.prems r have c: "cancel = AnswerNo"
      and rec: "checking_projects rs (w\<lparr>current_project := JStr nm\<rparr>) = Some (Inr w')"
      by (auto simp: Let_def split: cancel_reply.splits if_splits)
    from Cons.IH [OF rec] show ?thesis by simp
  qed
qed

lemma nth0_hd: "xs \<noteq> [] \<Longrightarrow> xs ! 0 = hd xs"
  by (simp add: hd_conv_nth)

lemma hd_member: "xs \<noteq> [] \<Longrightarrow> hd xs \<in> set xs"
  by simp

lemma in_projects_JStr: "in_projects (JStr s) ps = (s \<in> set ps)"
  by (simp add: in_projects_def)

lemma get_projects_result:
  assumes "get_projects os replies w = Some (Inr w')"
  shows "in_projects (current_project w') (projects w')
     \<and> (\<forall>cp. get_setting (store w) ''current_project'' = Inr cp \<longrightarrow>
          (let found = filter (\<lambda>p. isdir os (join os [projects_path w, p, ''data'']))
                         (listdir os (projects_path w))
           in (found \<noteq> [] \<and> (cp = JNull \<or> \<not> in_projects cp found) \<longrightarrow>
                 projects w' = found \<and> current_project w' = JStr (hd found)
                 \<and> map_of (settings (store w')) ''current_project'' = Some (JStr (hd found)))
            \<and> (found \<noteq> [] \<and> in_projects cp found \<longrightarrow> projects w' = found \<and> current_project w' = cp)
            \<and> (found = [] \<longrightarrow>
                 (\<exists>nm. nm \<noteq> [] \<and> projects w' = [nm] \<and> current_project w' = JStr nm
                    \<and> map_of (settings (store w')) ''current_project'' = Some (JStr nm)))))"
proof -
  let ?found = "filter (\<lambda>p. isdir os (join os [projects_path w, p, ''data''])) (listdir os (projects_path w))"
  from assms obtain cp where cp: "get_setting (store w) ''current_project'' = Inr cp"
    by (auto simp: get_projects_def split: sum.splits)
  let ?w1 = "w\<lparr>current_project := cp, projects := ?found\<rparr>"
  have nn: "in_projects cp ?found \<Longrightarrow> cp \<noteq> JNull"
    by (auto simp: in_projects_def)
  consider (none) "?found = []" | (pick) "?found \<noteq> []" "cp = JNull \<or> \<not> in_projects cp ?found"
    | (keep) "?found \<noteq> []" "in_projects cp ?found"
    by blast
  then show ?thesis
  proof cases
    case none
    with assms cp have "checking_projects replies ?w1 = Some (Inr w')"
      by (simp add: get_projects_def)
    from checking_projects_result [OF this] none cp show ?thesis
      by (auto simp: in_projects_JStr Let_def)
  next
    case pick
    with assms cp
    have "w' = set_setting ''current_project'' (JStr (?found ! 0)) (?w1\<lparr>current_project := JStr (?found ! 0)\<rparr>)"
      by (auto simp: get_projects_def)
    moreover have "?found ! 0 = hd ?found" "hd ?found \<in> set ?found"
      by (rule nth0_hd [OF pick(1)], rule hd_member [OF pick(1)])
    ultimately show ?thesis
      using pick cp nn by (auto simp: in_projects_JStr Let_def set_setting_def update_conv')
  next
    case keep
    with assms cp nn have "w' = ?w1"
      by (auto simp: get_projects_def)
    with keep cp nn show ?thesis
      by (auto simp: Let_def)
  qed
qed

lemma get_paths_result:
  assumes "get_paths os hp reply w = Inr w'"
  shows "in_projects (project_name w') (old_projects w')
     \<and> (\<exists>w1. get_home os hp w = Inr w1 \<and>
          (let found = filter (\<lambda>p. isdir os (join os [path_of (old_home_path w1), p, ''data'']))
                         (listdir os (path_of (old_home_path w1)));
               stored = qvalue (qsettings w1) ''project_name''
           in (found \<noteq> [] \<and> (stored = JNull \<or> \<not> in_projects stored found) \<longrightarrow>
                 old_projects w' = found \<and> project_name w' = JStr (hd found)
                 \<and> qvalue (qsettings w') ''project_name'' = JStr (hd found))
            \<and> (found \<noteq> [] \<and> in_projects stored found \<longrightarrow> old_projects w' = found \<and> project_name w' = stored)
            \<and> (found = [] \<longrightarrow>
                 snd reply \<and> old_projects w' = [fst reply] \<and> project_name w' = JStr (fst reply)
                 \<and> qvalue (qsettings w') ''project_name'' = JStr (fst reply))))"
proof -
  from assms obtain w1 where w1: "get_home os hp w = Inr w1"
    and gp: "get_project_name os reply w1 = Inr w'"
    by (auto simp: get_paths_def split: sum.splits)
  let ?found = "filter (\<lambda>p. isdir os (join os [path_of (old_home_path w1), p, ''data'']))
                  (listdir os (path_of (old_home_path w1)))"
  let ?stored = "qvalue (qsettings w1) ''project_name''"
  let ?w = "w1\<lparr>project_name := ?stored, old_projects := ?found\<rparr>"
  obtain nm ok where r: "reply = (nm, ok)" by (cases reply)
  have nn: "in_projects ?stored ?found \<Longrightarrow> ?stored \<noteq> JNull"
    by (auto simp: in_projects_def)
  consider (none) "?found = []" | (pick) "?found \<noteq> []" "?stored = JNull \<or> \<not> in_projects ?stored ?found"
    | (keep) "?found \<noteq> []" "in_projects ?stored ?found"
    by blast
  then have "in_projects (project_name w') (old_projects w')
     \<and> (?found \<noteq> [] \<and> (?stored = JNull \<or> \<not> in_projects ?stored ?found) \<longrightarrow>
                 old_projects w' = ?found \<and> project_name w' = JStr (hd ?found)
                 \<and> qvalue (qsettings w') ''project_name'' = JStr (hd ?found))
            \<and> (?found \<noteq> [] \<and> in_projects ?stored ?found \<longrightarrow> old_projects w' = ?found \<and> project_name w' = ?stored)
            \<and> (?found = [] \<longrightarrow>
                 snd reply \<and> old_projects w' = [fst reply] \<and> project_name w' = JStr (fst reply)
                 \<and> qvalue (qsettings w') ''project_name'' = JStr (fst reply))"
  proof cases
    case none
    with gp r have ok: "ok"
      and w': "w' = set_value ''project_name'' (JStr nm) (?w\<lparr>project_name := JStr nm, old_projects := ?found @ [nm]\<rparr>)"
      by (auto simp: get_project_name_def Let_def split: if_splits)
    from none ok r show ?thesis
      unfolding w' by (simp add: in_projects_JStr set_value_def qvalue_def update_conv')
  next
    case pick
    with gp
    have w': "w' = set_value ''project_name'' (JStr (?found ! 0)) (?w\<lparr>project_name := JStr (?found ! 0)\<rparr>)"
      by (auto simp: get_project_name_def Let_def)
    have h: "?found ! 0 = hd ?found" "hd ?found \<in> set ?found"
      by (rule nth0_hd [OF pick(1)], rule hd_member [OF pick(1)])
    from pick nn h show ?thesis
      unfolding w' by (auto simp: in_projects_JStr set_value_def qvalue_def update_conv')
  next
    case keep
    with gp nn have w': "w' = ?w"
      by (auto simp: get_project_name_def Let_def)
    from keep nn show ?thesis
      unfolding w' by auto
  qed
  with w1 show ?thesis
    by (simp add: Let_def)
qed

text \<open>
  C9. Whenever project discovery returns, in the newer window (\<open>get_projects\<close>) and in
  the older one (\<open>get_paths\<close>), the selected project is a member of the list of projects.
  When projects are found and the stored name is \<open>None\<close> or not among them, the first one
  found is selected and written to the settings; when the stored name is among them it is
  kept; when none is found, the name the user entered is selected, written to the settings
  and is the one element of the list.
\<close>

theorem project_discovery_selects_member:
  "(get_projects os replies w = Some (Inr w') \<longrightarrow>
      in_projects (current_project w') (projects w')
      \<and> (\<forall>cp. get_setting (store w) ''current_project'' = Inr cp \<longrightarrow>
          (let found = filter (\<lambda>p. isdir os (join os [projects_path w, p, ''data'']))
                         (listdir os (projects_path w))
           in (found \<noteq> [] \<and> (cp = JNull \<or> \<not> in_projects cp found) \<longrightarrow>
                 projects w' = found \<and> current_project w' = JStr (hd found)
                 \<and> map_of (settings (store w')) ''current_project'' = Some (JStr (hd found)))
            \<and> (found \<noteq> [] \<and> in_projects cp found \<longrightarrow> projects w' = found \<and> current_project w' = cp)
            \<and> (found = [] \<longrightarrow>
                 (\<exists>nm. nm \<noteq> [] \<and> projects w' = [nm] \<and> current_project w' = JStr nm
                    \<and> map_of (settings (store w')) ''current_project'' = Some (JStr nm))))))
   \<and> (get_paths os hp reply ow = Inr ow' \<longrightarrow>
      in_projects (project_name ow') (old_projects ow')
      \<and> (\<exists>w1. get_home os hp ow = Inr w1 \<and>
          (let found = filter (\<lambda>p. isdir os (join os [path_of (old_home_path w1), p, ''data'']))
                         (listdir os (path_of (old_home_path w1)));
               stored = qvalue (qsettings w1) ''project_name''
           in (found \<noteq> [] \<and> (stored = JNull \<or> \<not> in_projects stored found) \<longrightarrow>
                 old_projects ow' = found \<and> project_name ow' = JStr (hd found)
                 \<and> qvalue (qsettings ow') ''project_name'' = JStr (hd found))
            \<and> (found \<noteq> [] \<and> in_projects stored found \<longrightarrow> old_projects ow' = found \<and> project_name ow' = stored)
            \<and> (found = [] \<longrightarrow>
                 snd reply \<and> old_projects ow' = [fst reply] \<and> project_name ow' = JStr (fst reply)
                 \<and> qvalue (qsettings ow') ''project_name'' = JStr (fst reply)))))"
  using get_projects_result [of os replies w w'] get_paths_result [of os hp reply ow ow']
  by blast

theorem project_discovery_selects_member_witness:
  "get_projects \<lparr>listdir = (\<lambda>d. []), isdir = (\<lambda>p. True), join = concat\<rparr>
       [([], True, AnswerNo), (''first'', True, ExecRaises)]
       \<lparr>store = \<lparr>settings = [], default_settings = [(''current_project'', JNull)]\<rparr>,
        home_path = ''h'', projects_path = ''h/projects'', current_project = JStr [], projects = []\<rparr>
     = Some (Inr
       \<lparr>store = \<lparr>settings = [(''current_project'', JStr ''first'')],
                 default_settings = [(''current_project'', JNull)]\<rparr>,
        home_path = ''h'', projects_path = ''h/projects'', current_project = JStr ''first'',
        projects = [''first'']\<rparr>)
   \<and> in_projects (JStr ''first'') [''first'']
   \<and> get_paths \<lparr>listdir = (\<lambda>d. [''a'', ''b'']), isdir = (\<lambda>p. True), join = concat\<rparr> [] ([], False)
       \<lparr>qsettings = [(''home_path'', JStr ''h''), (''project_name'', JStr ''gone'')],
        old_home_path = JNull, project_name = JNull, old_projects = [], closed = False\<rparr>
     = Inr
       \<lparr>qsettings = [(''home_path'', JStr ''h''), (''project_name'', JStr ''a'')],
        old_home_path = JStr ''h'', project_name = JStr ''a'', old_projects = [''a'', ''b''], closed = False\<rparr>
   \<and> in_projects (JStr ''a'') [''a'', ''b'']"
proof -
  let ?os = "\<lparr>listdir = (\<lambda>d. []), isdir = (\<lambda>p. True), join = concat\<rparr>"
  let ?rs = "[([], True, AnswerNo), (''first'', True, ExecRaises)]"
  let ?w = "\<lparr>store = \<lparr>settings = [], default_settings = [(''current_project'', JNull)]\<rparr>,
        home_path = ''h'', projects_path = ''h/projects'', current_project = JStr [], projects = []\<rparr>"
  let ?w' = "\<lparr>store = \<lparr>settings = [(''current_project'', JStr ''first'')],
                 default_settings = [(''current_project'', JNull)]\<rparr>,
        home_path = ''h'', projects_path = ''h/projects'', current_project = JStr ''first'',
        projects = [''first'']\<rparr>"
  let ?os2 = "\<lparr>listdir = (\<lambda>d. [''a'', ''b'']), isdir = (\<lambda>p. True), join = concat\<rparr>"
  let ?ow = "\<lparr>qsettings = [(''home_path'', JStr ''h''), (''project_name'', JStr ''gone'')],
        old_home_path = JNull, project_name = JNull, old_projects = [], closed = False\<rparr>"
  let ?ow' = "\<lparr>qsettings = [(''home_path'', JStr ''h''), (''project_name'', JStr ''a'')],
        old_home_path = JStr ''h'', project_name = JStr ''a'', old_projects = [''a'', ''b''], closed = False\<rparr>"
  have a: "get_projects ?os ?rs ?w = Some (Inr ?w')"
    by (simp add: get_projects_def get_setting_def dict_get_def set_setting_def)
  have b: "get_paths ?os2 [] ([], False) ?ow = Inr ?ow'"
    by (simp add: get_paths_def get_home_def get_project_name_def qvalue_def path_of_def
        set_value_def in_projects_def)
  from project_discovery_selects_member [of ?os ?rs ?w ?w' "[]" "([], False)" ?ow ?ow'] a
  have c: "in_projects (current_project ?w') (projects ?w')" by blast
  from project_discovery_selects_member [of ?os2 ?rs ?w ?w' "[]" "([], False)" ?ow ?ow'] b
  have d: "in_projects (project_name ?ow') (old_projects ?ow')" by blast
  from a b c d show ?thesis by simp
qed

subsection \<open>Sub-dict files\<close>

lemma update_absent: "k \<notin> set (map fst d) \<Longrightarrow> AList.update k v d = d @ [(k, v)]"
  by (induction d) auto

lemma length_update:
  "length (AList.update k v d) = (if k \<in> set (map fst d) then length d else Suc (length d))"
  by (induction d) auto

text \<open>
  C6. For a file that exists, \<open>sub_dict_assign\<close> writes one line \<open>key:value\<close> for each
  entry of the dict it read, updated at the selected key: afterwards the selected key has
  the selected value, every other key has the value it had, no key occurs twice, and a key
  that was absent is added after all the entries read, which are kept as they were.
\<close>

theorem sub_dict_assign_frame:
  "sub_dict_assign read_sub_dict (Some content) (Some choice1) (Some choice2) =
     Inr (concat (map (\<lambda>(key, val). key @ '':'' @ val @ [CHR 0x0A])
            (assign_entry (read_sub_dict content) choice1 choice2)))
   \<and> map_of (assign_entry (read_sub_dict content) choice1 choice2) choice1 = Some choice2
   \<and> (\<forall>k. k \<noteq> choice1 \<longrightarrow>
         map_of (assign_entry (read_sub_dict content) choice1 choice2) k = map_of (read_sub_dict content) k)
   \<and> (distinct (map fst (read_sub_dict content)) \<longrightarrow>
         distinct (map fst (assign_entry (read_sub_dict content) choice1 choice2)))
   \<and> (choice1 \<in> set (map fst (read_sub_dict content)) \<longrightarrow>
         map fst (assign_entry (read_sub_dict content) choice1 choice2) = map fst (read_sub_dict content))
   \<and> (choice1 \<notin> set (map fst (read_sub_dict content)) \<longrightarrow>
         assign_entry (read_sub_dict content) choice1 choice2 = read_sub_dict content @ [(choice1, choice2)])"
proof -
  let ?d = "read_sub_dict content"
  have e: "assign_entry ?d choice1 choice2 = AList.update choice1 choice2 ?d"
    by (simp add: assign_entry_def)
  have "sub_dict_assign read_sub_dict (Some content) (Some choice1) (Some choice2) =
     Inr (concat (map (\<lambda>(key, val). key @ '':'' @ val @ [CHR 0x0A]) (assign_entry ?d choice1 choice2)))"
    by (simp add: sub_dict_assign_def write_dict_def dict_line_def)
  moreover have "map_of (assign_entry ?d choice1 choice2) choice1 = Some choice2"
    by (simp add: e update_conv')
  moreover have "\<forall>k. k \<noteq> choice1 \<longrightarrow> map_of (assign_entry ?d choice1 choice2) k = map_of ?d k"
    by (simp add: e update_conv')
  moreover have "distinct (map fst ?d) \<longrightarrow> distinct (map fst (assign_entry ?d choice1 choice2))"
    by (simp add: e distinct_update)
  moreover have "choice1 \<in> set (map fst ?d) \<longrightarrow> map fst (assign_entry ?d choice1 choice2) = map fst ?d"
    by (simp add: e update_keys)
  moreover have "choice1 \<notin> set (map fst ?d) \<longrightarrow> assign_entry ?d choice1 choice2 = ?d @ [(choice1, choice2)]"
    using update_absent [of choice1 ?d choice2] by (simp add: e)
  ultimately show ?thesis by blast
qed

theorem sub_dict_assign_frame_witness:
  "sub_dict_assign (\<lambda>c. [(''f1'', ''m1''), (''f2'', ''m2'')]) (Some ''f1:m1'') (Some ''f2'') (Some ''m9'')
     = Inr (''f1:m1'' @ [CHR 0x0A] @ ''f2:m9'' @ [CHR 0x0A])
   \<and> sub_dict_assign (\<lambda>c. [(''f1'', ''m1''), (''f2'', ''m2'')]) (Some ''f1:m1'') (Some ''f3'') (Some ''m9'')
     = Inr (''f1:m1'' @ [CHR 0x0A] @ ''f2:m2'' @ [CHR 0x0A] @ ''f3:m9'' @ [CHR 0x0A])"
proof -
  let ?r = "\<lambda>c::string. [(''f1'', ''m1''), (''f2'', ''m2'')]"
  have a: "assign_entry (?r ''f1:m1'') ''f2'' ''m9'' = [(''f1'', ''m1''), (''f2'', ''m9'')]"
    by (simp add: assign_entry_def)
  have n: "''f3'' \<notin> set (map fst (?r ''f1:m1''))" by simp
  from sub_dict_assign_frame [of ?r "''f1:m1''" "''f3''" "''m9''"] n
  have b: "assign_entry (?r ''f1:m1'') ''f3'' ''m9'' = ?r ''f1:m1'' @ [(''f3'', ''m9'')]"
    by blast
  from sub_dict_assign_frame [of ?r "''f1:m1''" "''f2''" "''m9''"]
  have "sub_dict_assign ?r (Some ''f1:m1'') (Some ''f2'') (Some ''m9'') =
     Inr (concat (map (\<lambda>(key, val). key @ '':'' @ val @ [CHR 0x0A]) (assign_entry (?r ''f1:m1'') ''f2'' ''m9'')))"
    by blast
  moreover from sub_dict_assign_frame [of ?r "''f1:m1''" "''f3''" "''m9''"]
  have "sub_dict_assign ?r (Some ''f1:m1'') (Some ''f3'') (Some ''m9'') =
     Inr (concat (map (\<lambda>(key, val). key @ '':'' @ val @ [CHR 0x0A]) (assign_entry (?r ''f1:m1'') ''f3'' ''m9'')))"
    by blast
  ultimately show ?thesis
    unfolding a b by simp
qed

subsection \<open>Starting a run\<close>

lemma save_main_keeps:
  "save_main c w = (w1, r) \<Longrightarrow>
   pipeline_running w1 = pipeline_running w \<and> runs_in_progress w1 = runs_in_progress w
   \<and> dialogs_created w1 = dialogs_created w"
  by (auto simp: save_main_def Let_def split: option.splits)

lemma start_cases:
  "\<not> pipeline_running w \<Longrightarrow>
   (pipeline_running (fst (start c w)) \<and> runs_in_progress (fst (start c w)) = Suc (runs_in_progress w)
      \<and> dialogs_created (fst (start c w)) = Suc (dialogs_created w))
   \<or> (\<not> pipeline_running (fst (start c w)) \<and> runs_in_progress (fst (start c w)) = runs_in_progress w
      \<and> dialogs_created (fst (start c w)) = dialogs_created w)"
proof -
  assume n: "\<not> pipeline_running w"
  obtain w1 r where s: "save_main c w = (w1, r)" by (cases "save_main c w")
  note k = save_main_keeps [OF s]
  show ?thesis
    using n k by (auto simp: start_def s RunDialog_def split: option.splits sum.splits)
qed

lemma step_inv: "running_inv w \<Longrightarrow> running_inv (step w e)"
proof (cases e)
  case (PressStart c)
  assume i: "running_inv w"
  show ?thesis
  proof (cases "pipeline_running w")
    case True
    with i PressStart show ?thesis
      by (simp add: step_def start_def running_inv_def)
  next
    case False
    with i have z: "runs_in_progress w = 0" by (auto simp: running_inv_def)
    from start_cases [OF False, of c] z PressStart show ?thesis
      by (auto simp: step_def running_inv_def)
  qed
next
  case RunFinished
  assume "running_inv w"
  with RunFinished show ?thesis
    by (auto simp: step_def run_finished_def running_inv_def)
qed

lemma run_events_inv: "running_inv w \<Longrightarrow> running_inv (run_events es w)"
  unfolding run_events_def
  by (induction es arbitrary: w) (simp_all add: step_inv)

text \<open>
  C3. Pressing Start while \<open>pipeline_running\<close> is set shows the warning box and changes
  nothing else: no run dialog is created. A run dialog is created only from a state in which
  the flag is not set. With the run dialog setting the flag when it is created and clearing
  it when its run ends, every state reached from the initial one by pressing Start and by
  runs ending has at most one run in progress, and the flag is set exactly when one is.
\<close>

theorem start_at_most_one_run:
  "(pipeline_running w \<longrightarrow>
      start c w = (w\<lparr>boxes := boxes w @ [(''Already running!'', ''The Pipeline is already running!'')]\<rparr>, None)
      \<and> dialogs_created (fst (start c w)) = dialogs_created w)
   \<and> (dialogs_created (fst (start c w)) \<noteq> dialogs_created w \<longrightarrow> \<not> pipeline_running w)
   \<and> (initial w0 \<longrightarrow>
        runs_in_progress (run_events es w0) \<le> 1
        \<and> (pipeline_running (run_events es w0) = (runs_in_progress (run_events es w0) = 1)))"
proof (intro conjI impI)
  assume "pipeline_running w"
  then show "start c w = (w\<lparr>boxes := boxes w @ [(''Already running!'', ''The Pipeline is already running!'')]\<rparr>, None)"
    by (simp add: start_def)
  then show "dialogs_created (fst (start c w)) = dialogs_created w" by simp
next
  assume "dialogs_created (fst (start c w)) \<noteq> dialogs_created w"
  then show "\<not> pipeline_running w"
    by (auto simp: start_def)
next
  assume "initial w0"
  then have "running_inv w0" by (simp add: initial_def running_inv_def)
  then have "running_inv (run_events es w0)" by (rule run_events_inv)
  then show "runs_in_progress (run_events es w0) \<le> 1"
    and "pipeline_running (run_events es w0) = (runs_in_progress (run_events es w0) = 1)"
    by (simp_all add: running_inv_def)
qed

theorem start_at_most_one_run_witness:
  "initial
     \<lparr>store = \<lparr>settings = [(''show_plots'', JBool False)], default_settings = []\<rparr>,
        home_path = ''h'', projects_path = ''h/projects'', current_project = JStr ''p'', projects = [''p''],
        pipeline_running = False, boxes = [], backend = [], settings_json = None,
        dialogs_created = 0, runs_in_progress = 0\<rparr>
   \<and> run_events [PressStart \<lparr>project_save = None, reload_basic_modules = None, reload_custom_modules = None\<rparr>]
     \<lparr>store = \<lparr>settings = [(''show_plots'', JBool False)], default_settings = []\<rparr>,
        home_path = ''h'', projects_path = ''h/projects'', current_project = JStr ''p'', projects = [''p''],
        pipeline_running = False, boxes = [], backend = [], settings_json = None,
        dialogs_created = 0, runs_in_progress = 0\<rparr>
     = \<lparr>store = \<lparr>settings = [(''show_plots'', JBool False), (''current_project'', JStr ''p'')],
                 default_settings = []\<rparr>,
        home_path = ''h'', projects_path = ''h/projects'', current_project = JStr ''p'', projects = [''p''],
        pipeline_running = True, boxes = [], backend = ''agg'',
        settings_json = Some [(''show_plots'', JBool False), (''current_project'', JStr ''p'')],
        dialogs_created = 1, runs_in_progress = 1\<rparr>
   \<and> start \<lparr>project_save = None, reload_basic_modules = None, reload_custom_modules = None\<rparr>
     \<lparr>store = \<lparr>settings = [(''show_plots'', JBool False), (''current_project'', JStr ''p'')],
                 default_settings = []\<rparr>,
        home_path = ''h'', projects_path = ''h/projects'', current_project = JStr ''p'', projects = [''p''],
        pipeline_running = True, boxes = [], backend = ''agg'',
        settings_json = Some [(''show_plots'', JBool False), (''current_project'', JStr ''p'')],
        dialogs_created = 1, runs_in_progress = 1\<rparr>
     = (\<lparr>store = \<lparr>settings = [(''show_plots'', JBool False), (''current_project'', JStr ''p'')],
                 default_settings = []\<rparr>,
        home_path = ''h'', projects_path = ''h/projects'', current_project = JStr ''p'', projects = [''p''],
        pipeline_running = True, boxes = [(''Already running!'', ''The Pipeline is already running!'')], backend = ''agg'',
        settings_json = Some [(''show_plots'', JBool False), (''current_project'', JStr ''p'')],
        dialogs_created = 1, runs_in_progress = 1\<rparr>, None)
   \<and> runs_in_progress (run_events
       [PressStart \<lparr>project_save = None, reload_basic_modules = None, reload_custom_modules = None\<rparr>,
        PressStart \<lparr>project_save = None, reload_basic_modules = None, reload_custom_modules = None\<rparr>]
     \<lparr>store = \<lparr>settings = [(''show_plots'', JBool False)], default_settings = []\<rparr>,
        home_path = ''h'', projects_path = ''h/projects'', current_project = JStr ''p'', projects = [''p''],
        pipeline_running = False, boxes = [], backend = [], settings_json = None,
        dialogs_created = 0, runs_in_progress = 0\<rparr>) \<le> 1"
proof -
  let ?c = "\<lparr>project_save = None, reload_basic_modules = None, reload_custom_modules = None\<rparr>"
  let ?w0 = "\<lparr>store = \<lparr>settings = [(''show_plots'', JBool False)], default_settings = []\<rparr>,
        home_path = ''h'', projects_path = ''h/projects'', current_project = JStr ''p'', projects = [''p''],
        pipeline_running = False, boxes = [], backend = [], settings_json = None,
        dialogs_created = 0, runs_in_progress = 0\<rparr>"
  let ?w1 = "\<lparr>store = \<lparr>settings = [(''show_plots'', JBool False), (''current_project'', JStr ''p'')],
                 default_settings = []\<rparr>,
        home_path = ''h'', projects_path = ''h/projects'', current_project = JStr ''p'', projects = [''p''],
        pipeline_running = True, boxes = [], backend = ''agg'',
        settings_json = Some [(''show_plots'', JBool False), (''current_project'', JStr ''p'')],
        dialogs_created = 1, runs_in_progress = 1\<rparr>"
  have i: "initial ?w0" by (simp add: initial_def)
  have r: "run_events [PressStart ?c] ?w0 = ?w1"
    by (simp add: run_events_def step_def start_def save_main_def get_setting_def dict_get_def
        RunDialog_def truthy_def Let_def)
  have p: "pipeline_running ?w1" by simp
  from start_at_most_one_run [of ?w1 ?c ?w0 "[PressStart ?c, PressStart ?c]"] p
  have s: "start ?c ?w1 = (?w1\<lparr>boxes := boxes ?w1 @ [(''Already running!'', ''The Pipeline is already running!'')]\<rparr>, None)"
    by blast
  from start_at_most_one_run [of ?w1 ?c ?w0 "[PressStart ?c, PressStart ?c]"] i
  have m: "runs_in_progress (run_events [PressStart ?c, PressStart ?c] ?w0) \<le> 1"
    by blast
  from s have s': "start ?c ?w1 = (\<lparr>store = \<lparr>settings = [(''show_plots'', JBool False), (''current_project'', JStr ''p'')],
                 default_settings = []\<rparr>,
        home_path = ''h'', projects_path = ''h/projects'', current_project = JStr ''p'', projects = [''p''],
        pipeline_running = True, boxes = [(''Already running!'', ''The Pipeline is already running!'')], backend = ''agg'',
        settings_json = Some [(''show_plots'', JBool False), (''current_project'', JStr ''p'')],
        dialogs_created = 1, runs_in_progress = 1\<rparr>, None)"
    by simp
  from i r s' m show ?thesis by blast
qed

end
